theory Spec2Isabelle
  imports Main "HOL-Library.Word" "HOL-Library.Signed_Division"
begin

unbundle bit_operations_syntax

section \<open>The guestfsd daemon: ext2 administration and mkfs wrappers\<close>

text \<open>
  This theory embeds \<^verbatim>\<open>daemon/ext2.c\<close> and \<^verbatim>\<open>daemon/mkfs.c\<close>.

  Conventions of the embedding.
  \<^item> A C string is the list of its bytes before the terminating NUL, so a \<open>string\<close> of the
    model never holds the NUL byte. A \<^verbatim>\<open>char *\<close> that walks through a buffer is the
    suffix of the buffer it points to; the NULL pointer is \<open>None\<close>.
  \<^item> A C \<^verbatim>\<open>int\<close> is a 32-bit word, read as two's complement with \<open>sint\<close>.
  \<^item> The daemon's collaborators (process execution, the sector size query, the
    \<^verbatim>\<open>access\<close> system call, the global \<^verbatim>\<open>optargs_bitmask\<close>) are the fields of
    an environment record that every operation takes.
  \<^item> An operation that replies with an error returns \<open>Inl\<close> of that error. The operations
    whose claims speak of spawned processes also return the list of the argument vectors
    they handed to the process execution primitive, in order.
  \<^item> Memory is never exhausted: \<^verbatim>\<open>strdup\<close> and the allocations of
    \<^verbatim>\<open>add_string\<close> succeed.
\<close>

subsection \<open>Environment and errors\<close>

type_synonym c_int = "32 word"

record cmd_result =
  status :: c_int
  stdout :: string
  stderr :: string

record daemon_env =
  command :: "string list \<Rightarrow> cmd_result"
  blockdev_getss :: "string \<Rightarrow> c_int"
  access_F_OK :: "string \<Rightarrow> c_int"
  optargs_bitmask :: "64 word"

datatype error =
    Reply_error string
  | Callee_replied
  | Alloc_failed
  | Division_by_zero
  | Aborted

subsection \<open>Printing a C int with the conversion \<^verbatim>\<open>%d\<close>\<close>

fun string_of_nat :: "nat \<Rightarrow> string" where
  "string_of_nat n =
     (if n < 10 then [''0123456789'' ! n]
      else string_of_nat (n div 10) @ [''0123456789'' ! (n mod 10)])"

declare string_of_nat.simps [simp del]

definition string_of_int :: "int \<Rightarrow> string" where
  "string_of_int i = (if i < 0 then CHR ''-'' # string_of_nat (nat (- i)) else string_of_nat (nat i))"

subsection \<open>ext2.c: choosing the mke2fs binary\<close>

definition progs :: "string list" where
  "progs = [''/sbin/mke4fs'', ''/sbin/mke2fs'']"

definition no_mke2fs_msg :: string where
  "no_mke2fs_msg = ''mke2fs: no mke2fs binary found in appliance''"

text \<open>The \<^verbatim>\<open>for\<close> loop of \<^verbatim>\<open>get_mke2fs\<close> over the NULL-terminated table.\<close>

fun get_mke2fs_from :: "daemon_env \<Rightarrow> string list \<Rightarrow> error + string" where
  "get_mke2fs_from env [] = Inl (Reply_error no_mke2fs_msg)"
| "get_mke2fs_from env (p # ps) =
     (if access_F_OK env p = 0 then Inr p else get_mke2fs_from env ps)"

definition get_mke2fs :: "daemon_env \<Rightarrow> error + string" where
  "get_mke2fs env = get_mke2fs_from env progs"

text \<open>
  The three operations that create a filesystem with an external journal. \<^verbatim>\<open>jdev\<close> has
  room for \<^verbatim>\<open>len+32\<close> bytes and \<^verbatim>\<open>blocksize_s\<close> for 32, so neither
  \<^verbatim>\<open>snprintf\<close> truncates.
\<close>

definition do_mke2fs_J ::
  "daemon_env \<Rightarrow> string \<Rightarrow> c_int \<Rightarrow> string \<Rightarrow> string \<Rightarrow> string list list \<times> (error + unit)" where
  "do_mke2fs_J env fstype blocksize device journal =
     (case get_mke2fs env of
        Inl e \<Rightarrow> ([], Inl e)
      | Inr prog \<Rightarrow>
          (let blocksize_s = string_of_int (sint blocksize);
               jdev = ''device='' @ journal;
               args = [prog, ''-t'', fstype, ''-J'', jdev, ''-b'', blocksize_s, device];
               r = command env args
           in ([args],
               if status r = - 1 then Inl (Reply_error (''mke2fs_J: '' @ stderr r))
               else Inr ())))"

definition do_mke2fs_JL ::
  "daemon_env \<Rightarrow> string \<Rightarrow> c_int \<Rightarrow> string \<Rightarrow> string \<Rightarrow> string list list \<times> (error + unit)" where
  "do_mke2fs_JL env fstype blocksize device label =
     (case get_mke2fs env of
        Inl e \<Rightarrow> ([], Inl e)
      | Inr prog \<Rightarrow>
          (let blocksize_s = string_of_int (sint blocksize);
               jdev = ''device=LABEL='' @ label;
               args = [prog, ''-t'', fstype, ''-J'', jdev, ''-b'', blocksize_s, device];
               r = command env args
           in ([args],
               if status r = - 1 then Inl (Reply_error (''mke2fs_JL: '' @ stderr r))
               else Inr ())))"

definition do_mke2fs_JU ::
  "daemon_env \<Rightarrow> string \<Rightarrow> c_int \<Rightarrow> string \<Rightarrow> string \<Rightarrow> string list list \<times> (error + unit)" where
  "do_mke2fs_JU env fstype blocksize device uuid =
     (case get_mke2fs env of
        Inl e \<Rightarrow> ([], Inl e)
      | Inr prog \<Rightarrow>
          (let blocksize_s = string_of_int (sint blocksize);
               jdev = ''device=UUID='' @ uuid;
               args = [prog, ''-t'', fstype, ''-J'', jdev, ''-b'', blocksize_s, device];
               r = command env args
           in ([args],
               if status r = - 1 then Inl (Reply_error (''mke2fs_JU: '' @ stderr r))
               else Inr ())))"

subsection \<open>C library and gnulib string functions\<close>

text \<open>
  \<^verbatim>\<open>c_isspace\<close> and \<^verbatim>\<open>c_isxdigit\<close> are the locale-independent classifiers of
  gnulib's \<^verbatim>\<open>c-ctype.h\<close>: space, \<^verbatim>\<open>\t \n \v \f \r\<close>; and \<^verbatim>\<open>0-9 a-f A-F\<close>.
\<close>

definition c_isspace :: "char \<Rightarrow> bool" where
  "c_isspace c =
     (c = CHR '' '' \<or> c = CHR 0x09 \<or> c = CHR 0x0A \<or> c = CHR 0x0B \<or> c = CHR 0x0C \<or> c = CHR 0x0D)"

definition c_isxdigit :: "char \<Rightarrow> bool" where
  "c_isxdigit c =
     (let n = of_char c :: nat
      in (48 \<le> n \<and> n \<le> 57) \<or> (97 \<le> n \<and> n \<le> 102) \<or> (65 \<le> n \<and> n \<le> 70))"

text \<open>\<^verbatim>\<open>strchr\<close>: the suffix starting at the first occurrence of the byte, or NULL.\<close>

definition strchr :: "string \<Rightarrow> char \<Rightarrow> string option" where
  "strchr s c = (case dropWhile (\<lambda>x. x \<noteq> c) s of [] \<Rightarrow> None | q # qs \<Rightarrow> Some (q # qs))"

text \<open>\<^verbatim>\<open>strchrnul\<close>: as \<^verbatim>\<open>strchr\<close>, but the position of the terminator when the
  byte does not occur.\<close>

definition strchrnul :: "string \<Rightarrow> char \<Rightarrow> string" where
  "strchrnul s c = dropWhile (\<lambda>x. x \<noteq> c) s"

text \<open>\<^verbatim>\<open>strncmp (s, t, n) == 0\<close> for a \<open>t\<close> of exactly \<open>n\<close> bytes.\<close>

definition strncmp_eq :: "string \<Rightarrow> string \<Rightarrow> bool" where
  "strncmp_eq s t = (take (length t) s = t)"

text \<open>\<^verbatim>\<open>strstr\<close>: the suffix starting at the first occurrence of the needle, or NULL.\<close>

fun strstr :: "string \<Rightarrow> string \<Rightarrow> string option" where
  "strstr [] needle = (if needle = [] then Some [] else None)"
| "strstr (h # hs) needle =
     (if take (length needle) (h # hs) = needle then Some (h # hs) else strstr hs needle)"

subsection \<open>ext2.c: listing the superblock attributes\<close>

text \<open>
  Modelled from the spec: \<^verbatim>\<open>add_string\<close> is defined in the daemon's main file, which
  is not among the sources. It appends one string to the growing NULL-terminated list
  (``ordered key/value string list terminated by a sentinel''); the NULL argument closes
  the list. Its failure, running out of memory, returns \<^verbatim>\<open>-1\<close>; the model keeps the
  callers' branches for it, and memory is never exhausted.
\<close>

definition add_string :: "string list \<Rightarrow> string option \<Rightarrow> string list option" where
  "add_string ret s = (case s of Some str \<Rightarrow> Some (ret @ [str]) | None \<Rightarrow> Some ret)"

text \<open>
  The body of the \<^verbatim>\<open>while\<close> loop from \<^verbatim>\<open>colon = strchr (p, ':')\<close> on. Here
  \<open>line\<close> is the string at \<^verbatim>\<open>p\<close> after the newline at \<^verbatim>\<open>pend\<close> was overwritten
  with NUL. Writing NUL at \<^verbatim>\<open>colon\<close> leaves the key at \<^verbatim>\<open>p\<close>; the
  \<^verbatim>\<open>do ... while\<close> steps over the colon and then over white space.
\<close>

definition add_key_value :: "string \<Rightarrow> string list \<Rightarrow> error + string list" where
  "add_key_value line ret =
     (case strchr line CHR '':'' of
        Some colon \<Rightarrow>
          (let key = take (length line - length colon) line;
               val = dropWhile c_isspace (tl colon)
           in case add_string ret (Some key) of
                None \<Rightarrow> Inl Alloc_failed
              | Some ret1 \<Rightarrow>
                  if val = ''<none>'' \<or> val = ''<not available>'' \<or> val = ''(none)''
                  then (case add_string ret1 (Some []) of
                          None \<Rightarrow> Inl Alloc_failed | Some ret2 \<Rightarrow> Inr ret2)
                  else (case add_string ret1 (Some val) of
                          None \<Rightarrow> Inl Alloc_failed | Some ret2 \<Rightarrow> Inr ret2))
      | None \<Rightarrow>
          (case add_string ret (Some line) of
             None \<Rightarrow> Inl Alloc_failed
           | Some ret1 \<Rightarrow>
               (case add_string ret1 (Some []) of
                  None \<Rightarrow> Inl Alloc_failed | Some ret2 \<Rightarrow> Inr ret2)))"

text \<open>
  The \<^verbatim>\<open>while (*p)\<close> loop. \<open>pend\<close> is where \<^verbatim>\<open>strchrnul\<close> stops; when it
  stops at a newline, that byte becomes NUL and \<open>pend\<close> moves past it, so the string at
  \<^verbatim>\<open>p\<close> is now the line alone. On an empty line the \<^verbatim>\<open>continue\<close> jumps to the
  loop test with \<^verbatim>\<open>p\<close> unchanged, where \<^verbatim>\<open>p\<close> points to the NUL just written:
  the recursive call is on the (empty) string at \<^verbatim>\<open>p\<close>, not on \<open>pend\<close>.
\<close>

function tune2fs_lines :: "string \<Rightarrow> string list \<Rightarrow> error + string list" where
  "tune2fs_lines p ret =
     (if p = [] then Inr ret
      else
        let pend = strchrnul p CHR 0x0A;
            line = take (length p - length pend) p;
            pend = (if pend \<noteq> [] then tl pend else pend)
        in if line = [] then tune2fs_lines line ret
           else (case add_key_value line ret of
                   Inl e \<Rightarrow> Inl e
                 | Inr ret' \<Rightarrow> tune2fs_lines pend ret'))"
  by pat_completeness auto
termination
proof (relation "measure (\<lambda>(p, ret). length p)")
  show "wf (measure (\<lambda>(p, ret). length p))" by simp
next
  fix p x xa xb :: string and ret :: "string list"
  assume "p \<noteq> []" "xa = take (length p - length x) p" "xa = []"
  then show "((xa, ret), (p, ret)) \<in> measure (\<lambda>(p, ret). length p)" by simp
next
  fix p x xa xb :: string and ret x2 :: "string list"
  assume "p \<noteq> []" "x = strchrnul p CHR 0x0A" "xb = (if x \<noteq> [] then tl x else x)"
  moreover have "length (dropWhile (\<lambda>c. c \<noteq> CHR 0x0A) p) \<le> length p"
    by (rule length_dropWhile_le)
  ultimately show "((xb, x2), (p, ret)) \<in> measure (\<lambda>(p, ret). length p)"
    by (cases "dropWhile (\<lambda>c. c \<noteq> CHR 0x0A) p") (auto simp: strchrnul_def)
qed

declare tune2fs_lines.simps [simp del]

definition do_tune2fs_l :: "daemon_env \<Rightarrow> string \<Rightarrow> error + string list" where
  "do_tune2fs_l env device =
     (let r = command env [''/sbin/tune2fs'', ''-l'', device]
      in if status r = - 1 then Inl (Reply_error (''tune2fs: '' @ stderr r))
         else
           let p = stdout r
           in case (if strncmp_eq p ''tune2fs ''
                    then (case strchr p CHR 0x0A of
                            Some q \<Rightarrow> Inr (tl q)
                          | None \<Rightarrow> Inl (Reply_error ''tune2fs: truncated output''))
                    else Inr p) of
                Inl e \<Rightarrow> Inl e
              | Inr p \<Rightarrow>
                  (case tune2fs_lines p [] of
                     Inl e \<Rightarrow> Inl e
                   | Inr ret \<Rightarrow>
                       (case add_string ret None of
                          None \<Rightarrow> Inl Alloc_failed
                        | Some ret' \<Rightarrow> Inr ret')))"

subsection \<open>ext2.c: reading the UUID\<close>

definition no_uuid_msg :: string where
  "no_uuid_msg = ''no Filesystem UUID in the output of tune2fs -l''"

definition malformed_uuid_msg :: string where
  "malformed_uuid_msg = ''malformed Filesystem UUID in the output of tune2fs -l''"

definition uuid_char :: "char \<Rightarrow> bool" where
  "uuid_char c = (c_isxdigit c \<or> c = CHR ''-'')"

definition do_get_e2uuid :: "daemon_env \<Rightarrow> string \<Rightarrow> error + string" where
  "do_get_e2uuid env device =
     (let r = command env [''/sbin/tune2fs'', ''-l'', device]
      in if status r = - 1 then Inl (Reply_error (''tune2fs -l: '' @ stderr r))
         else
           case strstr (stdout r) (CHR 0x0A # ''Filesystem UUID:'') of
             None \<Rightarrow> Inl (Reply_error no_uuid_msg)
           | Some p \<Rightarrow>
               (let p = drop 17 p;
                    p = dropWhile c_isspace p
                in if p = [] then Inl (Reply_error malformed_uuid_msg)
                   else
                     let q = dropWhile uuid_char p
                     in if q = [] then Inl (Reply_error malformed_uuid_msg)
                        else Inr (take (length p - length q) p)))"

subsection \<open>mkfs.c: creating a filesystem\<close>

definition MAX_ARGS :: nat where
  "MAX_ARGS = 16"

text \<open>
  Modelled from the spec: the generated protocol header that defines
  \<^verbatim>\<open>GUESTFS_MKFS_OPTS_BLOCKSIZE_BITMASK\<close> is not among the sources. It is the
  ``caller-presence flag indicating whether an optional block-size argument was supplied'',
  one bit of \<^verbatim>\<open>optargs_bitmask\<close>; block size is the first optional argument, bit 0.
\<close>

definition GUESTFS_MKFS_OPTS_BLOCKSIZE_BITMASK :: "64 word" where
  "GUESTFS_MKFS_OPTS_BLOCKSIZE_BITMASK = 1"

text \<open>
  Modelled from the spec: \<^verbatim>\<open>is_power_of_2\<close> is an inline function of
  \<^verbatim>\<open>daemon.h\<close>, which is not among the sources; the spec says of it that it tells
  whether the block size is ``a power of two''. It takes an \<^verbatim>\<open>unsigned long\<close> and
  uses the usual test that clearing the lowest set bit leaves nothing.
\<close>

definition is_power_of_2 :: "64 word \<Rightarrow> bool" where
  "is_power_of_2 v = (v \<noteq> 0 \<and> v AND (v - 1) = 0)"

definition blocksize_msg :: string where
  "blocksize_msg = ''block size must be > 0 and a power of 2''"

definition cluster_msg :: "string \<Rightarrow> int \<Rightarrow> int \<Rightarrow> int \<Rightarrow> string" where
  "cluster_msg fstype blocksize sectorsize sectors_per_cluster =
     ''unsupported cluster size for '' @ fstype @
     '' filesystem (requested cluster size = '' @ string_of_int blocksize @
     '', sector size = '' @ string_of_int sectorsize @
     '', trying sectors per cluster = '' @ string_of_int sectors_per_cluster @ '')''"

text \<open>
  The block \<^verbatim>\<open>if (optargs_bitmask & GUESTFS_MKFS_OPTS_BLOCKSIZE_BITMASK)\<close>: the
  entries it appends to \<^verbatim>\<open>argv\<close>, or the error it returns with. The conversion of
  the positive \<^verbatim>\<open>int\<close> to \<^verbatim>\<open>unsigned long\<close> is \<open>scast\<close>. The division is
  C's, truncating; C leaves division by zero undefined, and the model returns
  \<open>Division_by_zero\<close> there. The quotient of a positive \<^verbatim>\<open>int\<close> is in range.
  When the sector size query fails, it has replied itself.
\<close>

definition blocksize_args :: "daemon_env \<Rightarrow> string \<Rightarrow> string \<Rightarrow> c_int \<Rightarrow> error + string list" where
  "blocksize_args env fstype device blocksize =
     (if sint blocksize \<le> 0 \<or> \<not> is_power_of_2 (scast blocksize)
      then Inl (Reply_error blocksize_msg)
      else if fstype = ''vfat'' \<or> fstype = ''msdos'' then
        (let sectorsize = blockdev_getss env device
         in if sectorsize = - 1 then Inl Callee_replied
            else if sectorsize = 0 then Inl Division_by_zero
            else
              let sectors_per_cluster = sint blocksize sdiv sint sectorsize
              in if sectors_per_cluster < 1 \<or> sectors_per_cluster > 128
                 then Inl (Reply_error (cluster_msg fstype (sint blocksize) (sint sectorsize)
                                           sectors_per_cluster))
                 else Inr [''-s'', string_of_int sectors_per_cluster])
      else if fstype = ''ntfs'' then Inr [''-c'', string_of_int (sint blocksize)]
      else Inr [''-b'', string_of_int (sint blocksize)])"

text \<open>
  The assembly of \<^verbatim>\<open>argv\<close>, up to and with the terminating NULL (\<open>None\<close>). The
  counter \<^verbatim>\<open>i\<close> of the source is the length of the list.
\<close>

definition mkfs_argv :: "daemon_env \<Rightarrow> string \<Rightarrow> string \<Rightarrow> c_int \<Rightarrow> error + string option list" where
  "mkfs_argv env fstype device blocksize =
     (let argv = [Some ''mkfs'', Some ''-t'', Some fstype];
          argv = (if fstype = ''ntfs'' then argv @ [Some ''-Q''] else argv);
          argv = (if fstype = ''reiserfs'' then argv @ [Some ''-f''] else argv);
          argv = (if fstype = ''jfs'' then argv @ [Some ''-f''] else argv);
          argv = (if fstype = ''gfs'' \<or> fstype = ''gfs2''
                  then argv @ [Some ''-p'', Some ''lock_nolock'', Some ''-j'', Some ''1'', Some ''-O'']
                  else argv)
      in case (if optargs_bitmask env AND GUESTFS_MKFS_OPTS_BLOCKSIZE_BITMASK \<noteq> 0
               then (case blocksize_args env fstype device blocksize of
                       Inl e \<Rightarrow> Inl e
                     | Inr args \<Rightarrow> Inr (argv @ map Some args))
               else Inr argv) of
           Inl e \<Rightarrow> Inl e
         | Inr argv \<Rightarrow> Inr (argv @ [Some device, None]))"

text \<open>The strings of a NULL-terminated vector, as \<^verbatim>\<open>commandv\<close> reads it.\<close>

definition strings_of_argv :: "string option list \<Rightarrow> string list" where
  "strings_of_argv argv = map the (takeWhile (\<lambda>a. a \<noteq> None) argv)"

definition do_mkfs_opts ::
  "daemon_env \<Rightarrow> string \<Rightarrow> string \<Rightarrow> c_int \<Rightarrow> string list list \<times> (error + unit)" where
  "do_mkfs_opts env fstype device blocksize =
     (case mkfs_argv env fstype device blocksize of
        Inl e \<Rightarrow> ([], Inl e)
      | Inr argv \<Rightarrow>
          if length argv > MAX_ARGS then ([], Inl Aborted)
          else
            let args = strings_of_argv argv;
                r = command env args
            in ([args],
                if status r = - 1
                then Inl (Reply_error (fstype @ '': '' @ device @ '': '' @ stderr r))
                else Inr ()))"

definition do_mkfs :: "daemon_env \<Rightarrow> string \<Rightarrow> string \<Rightarrow> string list list \<times> (error + unit)" where
  "do_mkfs env fstype device = do_mkfs_opts (env\<lparr>optargs_bitmask := 0\<rparr>) fstype device 0"

definition do_mkfs_b ::
  "daemon_env \<Rightarrow> string \<Rightarrow> c_int \<Rightarrow> string \<Rightarrow> string list list \<times> (error + unit)" where
  "do_mkfs_b env fstype blocksize device =
     do_mkfs_opts (env\<lparr>optargs_bitmask := GUESTFS_MKFS_OPTS_BLOCKSIZE_BITMASK\<rparr>)
       fstype device blocksize"

subsection \<open>The argument vector as the specification words it\<close>

text \<open>
  The type-conditional flags in their fixed order: \<^verbatim>\<open>-Q\<close> for ntfs, \<^verbatim>\<open>-f\<close> for
  reiserfs and jfs, \<^verbatim>\<open>-p lock_nolock -j 1 -O\<close> for gfs and gfs2.
\<close>

definition spec_type_flags :: "string \<Rightarrow> string list" where
  "spec_type_flags fstype =
     (if fstype = ''ntfs'' then [''-Q''] else []) @
     (if fstype = ''reiserfs'' \<or> fstype = ''jfs'' then [''-f''] else []) @
     (if fstype = ''gfs'' \<or> fstype = ''gfs2''
      then [''-p'', ''lock_nolock'', ''-j'', ''1'', ''-O''] else [])"

text \<open>
  The block-size flag pair: sectors per cluster with \<^verbatim>\<open>-s\<close> for the FAT family, the
  block size with \<^verbatim>\<open>-c\<close> for ntfs and with \<^verbatim>\<open>-b\<close> otherwise.
\<close>

definition spec_blocksize_flag :: "daemon_env \<Rightarrow> string \<Rightarrow> string \<Rightarrow> c_int \<Rightarrow> string list" where
  "spec_blocksize_flag env fstype device blocksize =
     (if fstype = ''vfat'' \<or> fstype = ''msdos''
      then [''-s'', string_of_int (sint blocksize sdiv sint (blockdev_getss env device))]
      else if fstype = ''ntfs'' then [''-c'', string_of_int (sint blocksize)]
      else [''-b'', string_of_int (sint blocksize)])"

definition blocksize_requested :: "daemon_env \<Rightarrow> bool" where
  "blocksize_requested env =
     (optargs_bitmask env AND GUESTFS_MKFS_OPTS_BLOCKSIZE_BITMASK \<noteq> 0)"

definition spec_mkfs_args :: "daemon_env \<Rightarrow> string \<Rightarrow> string \<Rightarrow> c_int \<Rightarrow> string list" where
  "spec_mkfs_args env fstype device blocksize =
     [''mkfs'', ''-t'', fstype] @ spec_type_flags fstype @
     (if blocksize_requested env then spec_blocksize_flag env fstype device blocksize else []) @
     [device]"

subsection \<open>The attribute list as the specification words it\<close>

text \<open>
  One line of the listing: split at the first colon, white space trimmed from the front of
  the value, the three spellings of ``none'' stored as the empty string; a line without a
  colon is a key with an empty value.
\<close>

definition spec_none_value :: "string \<Rightarrow> bool" where
  "spec_none_value v = (v = ''<none>'' \<or> v = ''<not available>'' \<or> v = ''(none)'')"

definition spec_key_value :: "string \<Rightarrow> string list" where
  "spec_key_value line =
     (if CHR '':'' \<in> set line
      then let key = takeWhile (\<lambda>c. c \<noteq> CHR '':'') line;
               val = dropWhile c_isspace (tl (dropWhile (\<lambda>c. c \<noteq> CHR '':'') line))
           in [key, if spec_none_value val then [] else val]
      else [line, []])"

text \<open>The text of a list of lines, each ended by a newline.\<close>

definition unlines :: "string list \<Rightarrow> string" where
  "unlines ls = concat (map (\<lambda>l. l @ [CHR 0x0A]) ls)"

text \<open>The marker that \<^verbatim>\<open>do_get_e2uuid\<close> searches for.\<close>

definition uuid_marker :: string where
  "uuid_marker = CHR 0x0A # ''Filesystem UUID:''"

subsection \<open>Example environments\<close>

text \<open>
  An appliance where every command succeeds with empty output, the sector size is 512,
  only \<^verbatim>\<open>/sbin/mke2fs\<close> exists and the caller supplied a block size.
\<close>

definition example_env :: daemon_env where
  "example_env =
     \<lparr>command = (\<lambda>args. \<lparr>status = 0, stdout = [], stderr = []\<rparr>),
      blockdev_getss = (\<lambda>device. 512),
      access_F_OK = (\<lambda>path. if path = ''/sbin/mke2fs'' then 0 else - 1),
      optargs_bitmask = 1\<rparr>"

text \<open>The same appliance, where \<^verbatim>\<open>tune2fs -l\<close> prints the given text.\<close>

definition tool_output_env :: "string \<Rightarrow> daemon_env" where
  "tool_output_env out =
     example_env\<lparr>command := (\<lambda>args. \<lparr>status = 0, stdout = out, stderr = []\<rparr>)\<rparr>"


section \<open>Proofs\<close>

subsection \<open>Powers of two\<close>

lemma and_pred_odd: "odd (n::nat) \<Longrightarrow> n AND (n - 1) = n - 1"
proof (elim oddE)
  fix m assume n: "n = 2 * m + 1"
  have "n AND (n - 1) = (if n = 0 \<or> n - 1 = 0 then 0 else (n mod 2) * ((n - 1) mod 2) + 2 * ((n div 2) AND ((n - 1) div 2)))"
    by (rule and_nat_unfold)
  then show ?thesis using n by simp
qed

lemma and_pred_even: "even (n::nat) \<Longrightarrow> 0 < n \<Longrightarrow> n AND (n - 1) = 2 * ((n div 2) AND (n div 2 - 1))"
proof (elim evenE)
  fix m assume n: "n = 2 * m" and pos: "0 < n"
  have "n AND (n - 1) = (if n = 0 \<or> n - 1 = 0 then 0 else (n mod 2) * ((n - 1) mod 2) + 2 * ((n div 2) AND ((n - 1) div 2)))"
    by (rule and_nat_unfold)
  moreover have "(2 * m - 1) div 2 = m - 1" using n pos by (cases m) auto
  ultimately show ?thesis using n pos by auto
qed

lemma nat_power_of_2_iff: "0 < n \<Longrightarrow> (n AND (n - 1) = 0) = (\<exists>k. n = 2 ^ k)" for n :: nat
proof (induction n rule: less_induct)
  case (less n)
  show ?case
  proof (cases "even n")
    case False
    then have a: "n AND (n - 1) = n - 1" by (rule and_pred_odd)
    have "(\<exists>k. n = 2 ^ k) = (n = 1)"
    proof
      assume "\<exists>k. n = 2 ^ k"
      then obtain k where k: "n = 2 ^ k" ..
      with False have "k = 0" by (cases k) auto
      with k show "n = 1" by simp
    next
      assume "n = 1"
      then have "n = 2 ^ 0" by simp
      then show "\<exists>k. n = 2 ^ k" ..
    qed
    with a less.prems show ?thesis by auto
  next
    case True
    from True less.prems have a: "n AND (n - 1) = 2 * ((n div 2) AND (n div 2 - 1))"
      by (rule and_pred_even)
    from True less.prems have h: "0 < n div 2" "n div 2 < n" "n = 2 * (n div 2)" by auto
    have ih: "((n div 2) AND (n div 2 - 1) = 0) = (\<exists>k. n div 2 = 2 ^ k)"
      using less.IH [OF h(2) h(1)] .
    have "(\<exists>k. n div 2 = 2 ^ k) = (\<exists>k. n = 2 ^ k)"
    proof
      assume "\<exists>k. n div 2 = 2 ^ k"
      then obtain k where "n div 2 = 2 ^ k" ..
      with h(3) have "n = 2 ^ Suc k" by simp
      then show "\<exists>k. n = 2 ^ k" ..
    next
      assume "\<exists>k. n = 2 ^ k"
      then obtain k where k: "n = 2 ^ k" ..
      with h(1) have "k \<noteq> 0" by (cases k) auto
      then obtain j where "k = Suc j" by (cases k) auto
      with k have "n div 2 = 2 ^ j" by simp
      then show "\<exists>k. n div 2 = 2 ^ k" ..
    qed
    with a ih show ?thesis by simp
  qed
qed

lemma word_and_pred: "w \<noteq> 0 \<Longrightarrow> (w AND (w - 1) = 0) = (unat w AND (unat w - 1) = 0)" for w :: "64 word"
  by (metis (no_types, lifting) unat_minus_one unsigned_and_eq unsigned_eq_0_iff)

lemma unat_scast_pos: "0 < sint (b :: 32 word) \<Longrightarrow> unat (scast b :: 64 word) = nat (sint b)"
proof -
  assume pos: "0 < sint b"
  have "sint b < 2 ^ 31" using sint_lt [of b] by simp
  then have lt: "sint b < 2 ^ 64" by simp
  have "uint (scast b :: 64 word) = sint b mod 2 ^ 64"
    unfolding scast_eq uint_word_of_int by simp
  with pos lt have "uint (scast b :: 64 word) = sint b" by simp
  then show ?thesis by (simp only: unat_eq_nat_uint)
qed

lemma is_power_of_2_iff:
  "0 < sint (b :: 32 word) \<Longrightarrow> is_power_of_2 (scast b) = (\<exists>k. sint b = 2 ^ k)"
proof -
  assume pos: "0 < sint b"
  let ?w = "scast b :: 64 word"
  have u: "unat ?w = nat (sint b)" using pos by (rule unat_scast_pos)
  with pos have nz: "?w \<noteq> 0" by (metis unat_0 nat_0_iff not_le order_refl unat_eq_zero less_le_not_le)
  have "is_power_of_2 ?w = (nat (sint b) AND (nat (sint b) - 1) = 0)"
    using nz u by (simp add: is_power_of_2_def word_and_pred)
  also have "\<dots> = (\<exists>k. nat (sint b) = 2 ^ k)"
    by (rule nat_power_of_2_iff) (use pos in simp)
  also have "\<dots> = (\<exists>k. sint b = 2 ^ k)"
  proof
    assume "\<exists>k. nat (sint b) = 2 ^ k"
    then obtain k where "nat (sint b) = 2 ^ k" ..
    with pos have "sint b = 2 ^ k" by (metis int_nat_eq of_nat_numeral of_nat_power less_imp_le)
    then show "\<exists>k. sint b = 2 ^ k" ..
  next
    assume "\<exists>k. sint b = 2 ^ k"
    then obtain k where "sint b = 2 ^ k" ..
    then have "nat (sint b) = 2 ^ k" by (simp add: nat_power_eq)
    then show "\<exists>k. nat (sint b) = 2 ^ k" ..
  qed
  finally show ?thesis .
qed


subsection \<open>mkfs.c: the argument vector\<close>

lemma blocksize_args_Inr:
  "blocksize_args env fstype device blocksize = Inr args \<Longrightarrow>
   args = spec_blocksize_flag env fstype device blocksize"
  unfolding blocksize_args_def spec_blocksize_flag_def Let_def
  by (auto split: if_splits)

lemma mkfs_argv_eq:
  "mkfs_argv env fstype device blocksize =
     (if blocksize_requested env
      then (case blocksize_args env fstype device blocksize of
              Inl e \<Rightarrow> Inl e
            | Inr args \<Rightarrow>
                Inr (map Some ([''mkfs'', ''-t'', fstype] @ spec_type_flags fstype @ args @ [device]) @ [None]))
      else Inr (map Some ([''mkfs'', ''-t'', fstype] @ spec_type_flags fstype @ [device]) @ [None]))"
  unfolding mkfs_argv_def blocksize_requested_def spec_type_flags_def Let_def
  by (simp split: sum.split)

lemma strings_of_argv_Some: "strings_of_argv (map Some xs @ [None]) = xs"
  unfolding strings_of_argv_def by (induction xs) simp_all

lemma length_spec_type_flags: "length (spec_type_flags fstype) \<le> 5"
  unfolding spec_type_flags_def by simp

lemma mkfs_argv_length:
  assumes "mkfs_argv env fstype device blocksize = Inr argv"
  shows "length argv \<le> 12"
proof (cases "blocksize_requested env")
  case False
  with assms have "argv = map Some ([''mkfs'', ''-t'', fstype] @ spec_type_flags fstype @ [device]) @ [None]"
    by (simp add: mkfs_argv_eq)
  then show ?thesis using length_spec_type_flags [of fstype] by simp
next
  case True
  with assms obtain args where a: "blocksize_args env fstype device blocksize = Inr args"
    and b: "argv = map Some ([''mkfs'', ''-t'', fstype] @ spec_type_flags fstype @ args @ [device]) @ [None]"
    by (auto simp: mkfs_argv_eq split: sum.splits)
  have "length args = 2"
    using blocksize_args_Inr [OF a] by (simp add: spec_blocksize_flag_def)
  with b show ?thesis using length_spec_type_flags [of fstype] by simp
qed

lemma example_env_requested:
  "optargs_bitmask example_env AND GUESTFS_MKFS_OPTS_BLOCKSIZE_BITMASK \<noteq> 0"
  by (simp add: example_env_def GUESTFS_MKFS_OPTS_BLOCKSIZE_BITMASK_def)

lemma not_power_of_2_3000: "(3000::int) \<noteq> 2 ^ k"
proof
  assume a: "(3000::int) = 2 ^ k"
  then have "(2::int) ^ 11 < 2 ^ k" "(2::int) ^ k < 2 ^ 12" by simp_all
  then have "11 < k" "k < 12" by (simp_all only: power_strict_increasing_iff)
  then show False by simp
qed

text \<open>
  Claim C10. Whatever the filesystem type, the device and the block size, the vector that
  \<^verbatim>\<open>do_mkfs_opts\<close> assembles has at most 12 entries, the terminating NULL included,
  which is within \<^verbatim>\<open>MAX_ARGS = 16\<close>; the operation never ends in \<^verbatim>\<open>abort\<close>.
\<close>

theorem mkfs_argv_within_MAX_ARGS:
  "(\<forall>argv. mkfs_argv env fstype device blocksize = Inr argv \<longrightarrow>
      length argv \<le> 12 \<and> length argv \<le> MAX_ARGS) \<and>
   snd (do_mkfs_opts env fstype device blocksize) \<noteq> Inl Aborted"
proof -
  have len: "length argv \<le> 12" if "mkfs_argv env fstype device blocksize = Inr argv" for argv
    using that by (rule mkfs_argv_length)
  have "snd (do_mkfs_opts env fstype device blocksize) \<noteq> Inl Aborted"
  proof (cases "mkfs_argv env fstype device blocksize")
    case (Inl e)
    then have "e \<noteq> Aborted"
      by (auto simp: mkfs_argv_eq blocksize_args_def Let_def split: if_splits sum.splits)
    with Inl show ?thesis by (simp add: do_mkfs_opts_def)
  next
    case (Inr argv)
    with len have "\<not> length argv > MAX_ARGS" by (fastforce simp: MAX_ARGS_def)
    with Inr show ?thesis by (simp add: do_mkfs_opts_def Let_def)
  qed
  with len show ?thesis by (fastforce simp: MAX_ARGS_def)
qed

theorem mkfs_argv_within_MAX_ARGS_witness:
  "mkfs_argv example_env ''gfs2'' ''/dev/sda1'' 4096 =
     Inr [Some ''mkfs'', Some ''-t'', Some ''gfs2'', Some ''-p'', Some ''lock_nolock'',
          Some ''-j'', Some ''1'', Some ''-O'', Some ''-b'', Some ''4096'', Some ''/dev/sda1'',
          None] \<and>
   length [Some ''mkfs'', Some ''-t'', Some ''gfs2'', Some ''-p'', Some ''lock_nolock'',
          Some ''-j'', Some ''1'', Some ''-O'', Some ''-b'', Some ''4096'', Some ''/dev/sda1'',
          None] \<le> MAX_ARGS \<and>
   snd (do_mkfs_opts example_env ''gfs2'' ''/dev/sda1'' 4096) \<noteq> Inl Aborted"
proof -
  have e: "mkfs_argv example_env ''gfs2'' ''/dev/sda1'' 4096 =
     Inr [Some ''mkfs'', Some ''-t'', Some ''gfs2'', Some ''-p'', Some ''lock_nolock'',
          Some ''-j'', Some ''1'', Some ''-O'', Some ''-b'', Some ''4096'', Some ''/dev/sda1'',
          None]"
    by (simp add: mkfs_argv_def blocksize_args_def is_power_of_2_def example_env_def
          GUESTFS_MKFS_OPTS_BLOCKSIZE_BITMASK_def string_of_int_def string_of_nat.simps)
  with mkfs_argv_within_MAX_ARGS [of example_env "''gfs2''" "''/dev/sda1''" 4096]
  show ?thesis by blast
qed

text \<open>
  Claim C8. \<^verbatim>\<open>do_mkfs_opts\<close> hands the process execution primitive nothing when the
  requested block size is refused, and otherwise exactly one vector: \<^verbatim>\<open>mkfs -t fstype\<close>,
  then \<^verbatim>\<open>-Q\<close> exactly for ntfs, then \<^verbatim>\<open>-f\<close> exactly for reiserfs and jfs, then
  \<^verbatim>\<open>-p lock_nolock -j 1 -O\<close> once exactly for gfs and gfs2, then the block-size pair if
  a block size was requested (\<^verbatim>\<open>-s\<close> for the FAT family, \<^verbatim>\<open>-c\<close> for ntfs,
  \<^verbatim>\<open>-b\<close> otherwise), and the device last.
\<close>

theorem mkfs_opts_argument_order:
  "fst (do_mkfs_opts env fstype device blocksize) =
     (if blocksize_requested env \<and> isl (blocksize_args env fstype device blocksize) then []
      else [spec_mkfs_args env fstype device blocksize])"
proof (cases "mkfs_argv env fstype device blocksize")
  case (Inl e)
  then show ?thesis
    by (auto simp: do_mkfs_opts_def mkfs_argv_eq split: if_splits sum.splits)
next
  case (Inr argv)
  then have len: "\<not> length argv > MAX_ARGS" using mkfs_argv_length [OF Inr] by (simp add: MAX_ARGS_def)
  with Inr have run: "fst (do_mkfs_opts env fstype device blocksize) = [strings_of_argv argv]"
    by (simp add: do_mkfs_opts_def Let_def)
  show ?thesis
  proof (cases "blocksize_requested env")
    case False
    with Inr have "argv = map Some (spec_mkfs_args env fstype device blocksize) @ [None]"
      by (simp add: mkfs_argv_eq spec_mkfs_args_def)
    then have "strings_of_argv argv = spec_mkfs_args env fstype device blocksize"
      by (simp only: strings_of_argv_Some)
    with run False show ?thesis by simp
  next
    case True
    with Inr obtain args where a: "blocksize_args env fstype device blocksize = Inr args"
      and b: "argv = map Some ([''mkfs'', ''-t'', fstype] @ spec_type_flags fstype @ args @ [device]) @ [None]"
      by (auto simp: mkfs_argv_eq split: sum.splits)
    from a have c: "args = spec_blocksize_flag env fstype device blocksize" by (rule blocksize_args_Inr)
    from b c True have "argv = map Some (spec_mkfs_args env fstype device blocksize) @ [None]"
      by (simp add: spec_mkfs_args_def)
    then have "strings_of_argv argv = spec_mkfs_args env fstype device blocksize"
      by (simp only: strings_of_argv_Some)
    with run True a show ?thesis by simp
  qed
qed


theorem mkfs_opts_argument_order_witness:
  "fst (do_mkfs_opts example_env ''ntfs'' ''/dev/sda1'' 4096) =
     [[''mkfs'', ''-t'', ''ntfs'', ''-Q'', ''-c'', ''4096'', ''/dev/sda1'']] \<and>
   fst (do_mkfs_opts (example_env\<lparr>optargs_bitmask := 0\<rparr>) ''reiserfs'' ''/dev/sda1'' 0) =
     [[''mkfs'', ''-t'', ''reiserfs'', ''-f'', ''/dev/sda1'']] \<and>
   fst (do_mkfs_opts example_env ''gfs2'' ''/dev/sda1'' 3000) = []"
proof -
  have a: "blocksize_args example_env ''ntfs'' ''/dev/sda1'' 4096 = Inr [''-c'', ''4096'']"
    by (simp add: blocksize_args_def is_power_of_2_def string_of_int_def string_of_nat.simps)
  have b: "blocksize_requested example_env"
    "\<not> blocksize_requested (example_env\<lparr>optargs_bitmask := 0\<rparr>)"
    by (simp_all add: blocksize_requested_def example_env_def GUESTFS_MKFS_OPTS_BLOCKSIZE_BITMASK_def)
  have c: "blocksize_args example_env ''gfs2'' ''/dev/sda1'' 3000 = Inl (Reply_error blocksize_msg)"
    by (simp add: blocksize_args_def is_power_of_2_def)
  have d: "spec_mkfs_args example_env ''ntfs'' ''/dev/sda1'' 4096 =
       [''mkfs'', ''-t'', ''ntfs'', ''-Q'', ''-c'', ''4096'', ''/dev/sda1'']"
    using b by (simp add: spec_mkfs_args_def spec_type_flags_def spec_blocksize_flag_def
        string_of_int_def string_of_nat.simps)
  have e: "spec_mkfs_args (example_env\<lparr>optargs_bitmask := 0\<rparr>) ''reiserfs'' ''/dev/sda1'' 0 =
       [''mkfs'', ''-t'', ''reiserfs'', ''-f'', ''/dev/sda1'']"
    using b by (simp add: spec_mkfs_args_def spec_type_flags_def)
  show ?thesis
    using mkfs_opts_argument_order [of example_env "''ntfs''" "''/dev/sda1''" 4096]
      mkfs_opts_argument_order [of "example_env\<lparr>optargs_bitmask := 0\<rparr>" "''reiserfs''" "''/dev/sda1''" 0]
      mkfs_opts_argument_order [of example_env "''gfs2''" "''/dev/sda1''" 3000]
      a b c d e
    by simp
qed

lemma cluster_msg_not_blocksize_msg: "cluster_msg fstype a b c \<noteq> blocksize_msg"
  by (simp add: blocksize_msg_def cluster_msg_def)

lemma blocksize_args_invalid_iff:
  "(blocksize_args env fstype device blocksize = Inl (Reply_error blocksize_msg)) =
   (sint blocksize \<le> 0 \<or> \<not> is_power_of_2 (scast blocksize))"
  unfolding blocksize_args_def Let_def
  by (auto simp: cluster_msg_not_blocksize_msg)

text \<open>
  Claim C6. When a block size was requested, \<^verbatim>\<open>do_mkfs_opts\<close> ends with the block size
  validation error, having spawned nothing, exactly when the block size is not positive or
  not a power of two; so every power of two passes the validation.
\<close>

theorem mkfs_opts_blocksize_validation:
  assumes "optargs_bitmask env AND GUESTFS_MKFS_OPTS_BLOCKSIZE_BITMASK \<noteq> 0"
  shows "(do_mkfs_opts env fstype device blocksize = ([], Inl (Reply_error blocksize_msg))) =
         (sint blocksize \<le> 0 \<or> (\<forall>k. sint blocksize \<noteq> 2 ^ k))"
proof -
  from assms have req: "blocksize_requested env" by (simp add: blocksize_requested_def)
  have valid: "(sint blocksize \<le> 0 \<or> \<not> is_power_of_2 (scast blocksize)) =
               (sint blocksize \<le> 0 \<or> (\<forall>k. sint blocksize \<noteq> 2 ^ k))"
    using is_power_of_2_iff [of blocksize] by (cases "0 < sint blocksize") auto
  have "(do_mkfs_opts env fstype device blocksize = ([], Inl (Reply_error blocksize_msg))) =
        (blocksize_args env fstype device blocksize = Inl (Reply_error blocksize_msg))"
  proof (cases "blocksize_args env fstype device blocksize")
    case (Inl e)
    with req show ?thesis by (simp add: do_mkfs_opts_def mkfs_argv_eq)
  next
    case (Inr args)
    with req show ?thesis
      by (simp add: do_mkfs_opts_def mkfs_argv_eq Let_def)
  qed
  with valid show ?thesis by (simp add: blocksize_args_invalid_iff)
qed

theorem mkfs_opts_blocksize_validation_witness:
  "optargs_bitmask example_env AND GUESTFS_MKFS_OPTS_BLOCKSIZE_BITMASK \<noteq> 0 \<and>
   do_mkfs_opts example_env ''ext4'' ''/dev/sda1'' 0 = ([], Inl (Reply_error blocksize_msg)) \<and>
   do_mkfs_opts example_env ''ext4'' ''/dev/sda1'' (- 4096) = ([], Inl (Reply_error blocksize_msg)) \<and>
   do_mkfs_opts example_env ''ext4'' ''/dev/sda1'' 3000 = ([], Inl (Reply_error blocksize_msg)) \<and>
   do_mkfs_opts example_env ''ext4'' ''/dev/sda1'' 512 \<noteq> ([], Inl (Reply_error blocksize_msg)) \<and>
   do_mkfs_opts example_env ''ext4'' ''/dev/sda1'' 4096 \<noteq> ([], Inl (Reply_error blocksize_msg)) \<and>
   do_mkfs_opts example_env ''ext4'' ''/dev/sda1'' 65536 \<noteq> ([], Inl (Reply_error blocksize_msg))"
proof -
  note v = mkfs_opts_blocksize_validation [OF example_env_requested, of "''ext4''" "''/dev/sda1''"]
  have r0: "do_mkfs_opts example_env ''ext4'' ''/dev/sda1'' 0 = ([], Inl (Reply_error blocksize_msg))"
    using v [of 0] by simp
  have r1: "do_mkfs_opts example_env ''ext4'' ''/dev/sda1'' (- 4096) = ([], Inl (Reply_error blocksize_msg))"
    using v [of "- 4096"] by simp
  have "\<forall>k. sint (3000 :: c_int) \<noteq> 2 ^ k" using not_power_of_2_3000 by simp
  then have r2: "do_mkfs_opts example_env ''ext4'' ''/dev/sda1'' 3000 = ([], Inl (Reply_error blocksize_msg))"
    using v [of 3000] by blast
  have p: "sint (512 :: c_int) = 2 ^ 9" "sint (4096 :: c_int) = 2 ^ 12" "sint (65536 :: c_int) = 2 ^ 16"
    "\<not> sint (512 :: c_int) \<le> 0" "\<not> sint (4096 :: c_int) \<le> 0" "\<not> sint (65536 :: c_int) \<le> 0"
    by simp_all
  have r3: "do_mkfs_opts example_env ''ext4'' ''/dev/sda1'' 512 \<noteq> ([], Inl (Reply_error blocksize_msg))"
    using v [of 512] p(1,4) by blast
  have r4: "do_mkfs_opts example_env ''ext4'' ''/dev/sda1'' 4096 \<noteq> ([], Inl (Reply_error blocksize_msg))"
    using v [of 4096] p(2,5) by blast
  have r5: "do_mkfs_opts example_env ''ext4'' ''/dev/sda1'' 65536 \<noteq> ([], Inl (Reply_error blocksize_msg))"
    using v [of 65536] p(3,6) by blast
  from example_env_requested r0 r1 r2 r3 r4 r5 show ?thesis by blast
qed

text \<open>
  Claim C7. For vfat and msdos with a valid requested block size and a sector size that the
  device reports (the query did not fail, and the size is not zero), the sectors per
  cluster are the block size divided by the sector size. Outside 1..128 the operation
  fails, spawning nothing, with the message that names the filesystem type, the requested
  cluster size, the sector size and the sectors per cluster; inside, the vector is
  \<^verbatim>\<open>mkfs -t fstype -s sectors_per_cluster device\<close>.
\<close>

theorem mkfs_opts_fat_cluster_size:
  assumes req: "optargs_bitmask env AND GUESTFS_MKFS_OPTS_BLOCKSIZE_BITMASK \<noteq> 0"
    and fat: "fstype = ''vfat'' \<or> fstype = ''msdos''"
    and pos: "0 < sint blocksize" and pow: "sint blocksize = 2 ^ k"
    and ss: "blockdev_getss env device \<noteq> - 1" "blockdev_getss env device \<noteq> 0"
    and spc: "spc = sint blocksize sdiv sint (blockdev_getss env device)"
  shows "(spc < 1 \<or> 128 < spc \<longrightarrow>
            do_mkfs_opts env fstype device blocksize =
              ([], Inl (Reply_error (cluster_msg fstype (sint blocksize)
                                       (sint (blockdev_getss env device)) spc)))) \<and>
         (1 \<le> spc \<and> spc \<le> 128 \<longrightarrow>
            fst (do_mkfs_opts env fstype device blocksize) =
              [[''mkfs'', ''-t'', fstype, ''-s'', string_of_int spc, device]])"
proof -
  from req have r: "blocksize_requested env" by (simp add: blocksize_requested_def)
  from pos pow have p2: "is_power_of_2 (scast blocksize)"
    using is_power_of_2_iff [of blocksize] by auto
  have args: "blocksize_args env fstype device blocksize =
        (if spc < 1 \<or> 128 < spc
         then Inl (Reply_error (cluster_msg fstype (sint blocksize) (sint (blockdev_getss env device)) spc))
         else Inr [''-s'', string_of_int spc])"
    using fat pos p2 ss spc by (auto simp: blocksize_args_def Let_def)
  from fat have flags: "spec_type_flags fstype = []" by (auto simp: spec_type_flags_def)
  show ?thesis
  proof (cases "spc < 1 \<or> 128 < spc")
    case True
    with args r have "do_mkfs_opts env fstype device blocksize =
        ([], Inl (Reply_error (cluster_msg fstype (sint blocksize)
                                 (sint (blockdev_getss env device)) spc)))"
      by (simp add: do_mkfs_opts_def mkfs_argv_eq)
    with True show ?thesis by auto
  next
    case False
    with args r flags have
      "mkfs_argv env fstype device blocksize =
         Inr (map Some [''mkfs'', ''-t'', fstype, ''-s'', string_of_int spc, device] @ [None])"
      by (simp add: mkfs_argv_eq)
    then have "fst (do_mkfs_opts env fstype device blocksize) =
         [strings_of_argv (map Some [''mkfs'', ''-t'', fstype, ''-s'', string_of_int spc, device] @ [None])]"
      by (simp add: do_mkfs_opts_def Let_def MAX_ARGS_def)
    then have "fst (do_mkfs_opts env fstype device blocksize) =
         [[''mkfs'', ''-t'', fstype, ''-s'', string_of_int spc, device]]"
      by (simp only: strings_of_argv_Some)
    with False show ?thesis by simp
  qed
qed

theorem mkfs_opts_fat_cluster_size_witness:
  "fst (do_mkfs_opts example_env ''vfat'' ''/dev/sda1'' 8192) =
     [[''mkfs'', ''-t'', ''vfat'', ''-s'', ''16'', ''/dev/sda1'']] \<and>
   fst (do_mkfs_opts (example_env\<lparr>blockdev_getss := \<lambda>device. 4096\<rparr>) ''vfat'' ''/dev/sda1'' 8192) =
     [[''mkfs'', ''-t'', ''vfat'', ''-s'', ''2'', ''/dev/sda1'']] \<and>
   do_mkfs_opts example_env ''msdos'' ''/dev/sda1'' 256 =
     ([], Inl (Reply_error
        ''unsupported cluster size for msdos filesystem (requested cluster size = 256, sector size = 512, trying sectors per cluster = 0)''))"
proof -
  let ?env2 = "example_env\<lparr>blockdev_getss := \<lambda>device. 4096\<rparr>"
  have req2: "optargs_bitmask ?env2 AND GUESTFS_MKFS_OPTS_BLOCKSIZE_BITMASK \<noteq> 0"
    by (simp add: example_env_def GUESTFS_MKFS_OPTS_BLOCKSIZE_BITMASK_def)
  have vfat: "''vfat'' = ''vfat'' \<or> ''vfat'' = ''msdos''"
    and msdos: "''msdos'' = ''vfat'' \<or> ''msdos'' = ''msdos''" by simp_all
  have pos: "0 < sint (8192 :: c_int)" "0 < sint (256 :: c_int)" by simp_all
  have pow: "sint (8192 :: c_int) = 2 ^ 13" "sint (256 :: c_int) = 2 ^ 8" by simp_all
  have ss1: "blockdev_getss example_env ''/dev/sda1'' \<noteq> - 1"
    "blockdev_getss example_env ''/dev/sda1'' \<noteq> 0"
    and ss2: "blockdev_getss ?env2 ''/dev/sda1'' \<noteq> - 1" "blockdev_getss ?env2 ''/dev/sda1'' \<noteq> 0"
    by (simp_all add: example_env_def)
  have q1: "(16 :: int) = sint (8192 :: c_int) sdiv sint (blockdev_getss example_env ''/dev/sda1'')"
    and q2: "(2 :: int) = sint (8192 :: c_int) sdiv sint (blockdev_getss ?env2 ''/dev/sda1'')"
    and q3: "(0 :: int) = sint (256 :: c_int) sdiv sint (blockdev_getss example_env ''/dev/sda1'')"
    by (simp_all add: example_env_def signed_divide_int_def)
  have s: "string_of_int 16 = ''16''" "string_of_int 2 = ''2''" "string_of_int 0 = ''0''"
    "string_of_int 256 = ''256''" "string_of_int 512 = ''512''"
    by (simp_all add: string_of_int_def string_of_nat.simps)
  have ss: "sint (blockdev_getss example_env ''/dev/sda1'') = 512" "sint (256 :: c_int) = 256"
    by (simp_all add: example_env_def)
  have a: "fst (do_mkfs_opts example_env ''vfat'' ''/dev/sda1'' 8192) =
     [[''mkfs'', ''-t'', ''vfat'', ''-s'', ''16'', ''/dev/sda1'']]"
    using mkfs_opts_fat_cluster_size [OF example_env_requested vfat pos(1) pow(1) ss1 q1]
    by (simp only: s) simp
  have b: "fst (do_mkfs_opts ?env2 ''vfat'' ''/dev/sda1'' 8192) =
     [[''mkfs'', ''-t'', ''vfat'', ''-s'', ''2'', ''/dev/sda1'']]"
    using mkfs_opts_fat_cluster_size [OF req2 vfat pos(1) pow(1) ss2 q2]
    by (simp only: s) simp
  have c: "do_mkfs_opts example_env ''msdos'' ''/dev/sda1'' 256 =
     ([], Inl (Reply_error
        ''unsupported cluster size for msdos filesystem (requested cluster size = 256, sector size = 512, trying sectors per cluster = 0)''))"
    using mkfs_opts_fat_cluster_size [OF example_env_requested msdos pos(2) pow(2) ss1 q3]
    by (simp only: ss s cluster_msg_def) simp
  from a b c show ?thesis by blast
qed

subsection \<open>ext2.c: the mke2fs binary\<close>

text \<open>
  Claim C9. \<^verbatim>\<open>get_mke2fs\<close> returns \<^verbatim>\<open>/sbin/mke4fs\<close> whenever it exists, otherwise
  \<^verbatim>\<open>/sbin/mke2fs\<close> when that exists, and otherwise fails with its own message; the three
  operations that create a filesystem with an external journal then fail with that message
  and spawn nothing. The message differs from every message for a failed mke2fs run.
\<close>

theorem get_mke2fs_resolution:
  "(access_F_OK env ''/sbin/mke4fs'' = 0 \<longrightarrow> get_mke2fs env = Inr ''/sbin/mke4fs'') \<and>
   (access_F_OK env ''/sbin/mke4fs'' \<noteq> 0 \<and> access_F_OK env ''/sbin/mke2fs'' = 0 \<longrightarrow>
      get_mke2fs env = Inr ''/sbin/mke2fs'') \<and>
   (access_F_OK env ''/sbin/mke4fs'' \<noteq> 0 \<and> access_F_OK env ''/sbin/mke2fs'' \<noteq> 0 \<longrightarrow>
      get_mke2fs env = Inl (Reply_error no_mke2fs_msg) \<and>
      do_mke2fs_J env fstype blocksize device journal = ([], Inl (Reply_error no_mke2fs_msg)) \<and>
      do_mke2fs_JL env fstype blocksize device label = ([], Inl (Reply_error no_mke2fs_msg)) \<and>
      do_mke2fs_JU env fstype blocksize device uuid = ([], Inl (Reply_error no_mke2fs_msg))) \<and>
   no_mke2fs_msg \<noteq> ''mke2fs_J: '' @ err \<and> no_mke2fs_msg \<noteq> ''mke2fs_JL: '' @ err \<and>
   no_mke2fs_msg \<noteq> ''mke2fs_JU: '' @ err"
  by (simp add: get_mke2fs_def progs_def do_mke2fs_J_def do_mke2fs_JL_def do_mke2fs_JU_def
        no_mke2fs_msg_def)

theorem get_mke2fs_resolution_witness:
  "get_mke2fs (example_env\<lparr>access_F_OK := \<lambda>path. 0\<rparr>) = Inr ''/sbin/mke4fs'' \<and>
   get_mke2fs example_env = Inr ''/sbin/mke2fs'' \<and>
   do_mke2fs_J (example_env\<lparr>access_F_OK := \<lambda>path. - 1\<rparr>) ''ext4'' 4096 ''/dev/sda1'' ''/dev/sdb1'' =
     ([], Inl (Reply_error ''mke2fs: no mke2fs binary found in appliance''))"
  using get_mke2fs_resolution [of "example_env\<lparr>access_F_OK := \<lambda>path. 0\<rparr>"]
    get_mke2fs_resolution [of example_env]
    get_mke2fs_resolution [of "example_env\<lparr>access_F_OK := \<lambda>path. - 1\<rparr>" "''ext4''" 4096 "''/dev/sda1''" "''/dev/sdb1''"]
  by (simp add: example_env_def no_mke2fs_msg_def)

subsection \<open>ext2.c: the attribute list\<close>

lemma tool_output_env_command:
  "status (command (tool_output_env out) args) \<noteq> - 1"
  "stdout (command (tool_output_env out) args) = out"
  by (simp_all add: tool_output_env_def)

lemma take_length_dropWhile:
  "take (length xs - length (dropWhile P xs)) xs = takeWhile P xs"
proof -
  have "length (takeWhile P xs) + length (dropWhile P xs) = length xs"
    by (metis length_append takeWhile_dropWhile_id)
  then have "length xs - length (dropWhile P xs) = length (takeWhile P xs)" by simp
  then show ?thesis by (simp add: takeWhile_eq_take [symmetric])
qed

lemma dropWhile_neq_Nil: "c \<notin> set s \<Longrightarrow> dropWhile (\<lambda>x. x \<noteq> c) s = []"
  by (induction s) auto

lemma dropWhile_neq_append:
  "c \<notin> set l \<Longrightarrow> dropWhile (\<lambda>x. x \<noteq> c) (l @ c # rest) = c # rest"
  by (induction l) auto

lemma strchr_None_iff: "(strchr s c = None) = (c \<notin> set s)"
  unfolding strchr_def by (induction s) auto

lemma strchr_Some: "c \<in> set s \<Longrightarrow> strchr s c = Some (dropWhile (\<lambda>x. x \<noteq> c) s)"
  unfolding strchr_def by (induction s) auto

lemma add_key_value_eq: "add_key_value line ret = Inr (ret @ spec_key_value line)"
proof (cases "CHR '':'' \<in> set line")
  case False
  then show ?thesis
    by (simp add: add_key_value_def strchr_None_iff [THEN iffD2] spec_key_value_def add_string_def)
next
  case True
  then show ?thesis
    by (simp add: add_key_value_def strchr_Some spec_key_value_def add_string_def Let_def
          take_length_dropWhile spec_none_value_def)
qed

lemma tune2fs_lines_Nil: "tune2fs_lines [] ret = Inr ret"
  by (simp add: tune2fs_lines.simps)

lemma tune2fs_lines_blank: "tune2fs_lines (CHR 0x0A # rest) ret = Inr ret"
  by (subst tune2fs_lines.simps) (simp add: strchrnul_def tune2fs_lines_Nil)

lemma tune2fs_lines_step:
  assumes "l \<noteq> []" "CHR 0x0A \<notin> set l"
  shows "tune2fs_lines (l @ CHR 0x0A # rest) ret = tune2fs_lines rest (ret @ spec_key_value l)"
proof -
  have d: "strchrnul (l @ CHR 0x0A # rest) CHR 0x0A = CHR 0x0A # rest"
    using assms(2) by (simp add: strchrnul_def dropWhile_neq_append)
  show ?thesis
    by (subst tune2fs_lines.simps) (simp add: d assms(1) add_key_value_eq)
qed

lemma tune2fs_lines_last:
  assumes "l \<noteq> []" "CHR 0x0A \<notin> set l"
  shows "tune2fs_lines l ret = Inr (ret @ spec_key_value l)"
proof -
  have d: "strchrnul l CHR 0x0A = []"
    using assms(2) unfolding strchrnul_def by (rule dropWhile_neq_Nil)
  show ?thesis
    by (subst tune2fs_lines.simps) (simp add: d assms(1) add_key_value_eq tune2fs_lines_Nil)
qed

lemma tune2fs_lines_unlines:
  assumes "\<forall>l\<in>set ls. l \<noteq> [] \<and> CHR 0x0A \<notin> set l"
  shows "tune2fs_lines (unlines ls @ rest) ret =
         tune2fs_lines rest (ret @ concat (map spec_key_value ls))"
  using assms
proof (induction ls arbitrary: ret)
  case Nil
  then show ?case by (simp add: unlines_def)
next
  case (Cons l ls)
  then have l: "l \<noteq> []" "CHR 0x0A \<notin> set l" by simp_all
  have "unlines (l # ls) @ rest = l @ CHR 0x0A # (unlines ls @ rest)" by (simp add: unlines_def)
  then have "tune2fs_lines (unlines (l # ls) @ rest) ret =
      tune2fs_lines (unlines ls @ rest) (ret @ spec_key_value l)"
    by (simp only: tune2fs_lines_step [OF l])
  with Cons show ?case by simp
qed


lemma strncmp_eq_tune2fs: "strncmp_eq s ''tune2fs '' = (take 8 s = ''tune2fs '')"
proof -
  have "length ''tune2fs '' = 8" by simp
  then show ?thesis unfolding strncmp_eq_def by (simp only:)
qed

lemma do_tune2fs_l_banner:
  assumes ok: "status (command env [''/sbin/tune2fs'', ''-l'', device]) \<noteq> - 1"
    and out: "stdout (command env [''/sbin/tune2fs'', ''-l'', device]) = banner @ CHR 0x0A # rest"
    and pre: "take 8 (banner @ CHR 0x0A # rest) = ''tune2fs ''"
    and nl: "CHR 0x0A \<notin> set banner"
  shows "do_tune2fs_l env device = tune2fs_lines rest []"
proof -
  let ?r = "command env [''/sbin/tune2fs'', ''-l'', device]"
  have s: "strncmp_eq (stdout ?r) ''tune2fs ''"
    by (simp only: strncmp_eq_tune2fs out pre)
  have c: "strchr (stdout ?r) CHR 0x0A = Some (CHR 0x0A # rest)"
    unfolding out using nl by (simp add: strchr_Some dropWhile_neq_append)
  show ?thesis
    unfolding do_tune2fs_l_def Let_def using ok s c
    by (cases "tune2fs_lines rest []") (simp_all add: add_string_def)
qed

lemma do_tune2fs_l_truncated:
  assumes ok: "status (command env [''/sbin/tune2fs'', ''-l'', device]) \<noteq> - 1"
    and pre: "take 8 (stdout (command env [''/sbin/tune2fs'', ''-l'', device])) = ''tune2fs ''"
    and nl: "CHR 0x0A \<notin> set (stdout (command env [''/sbin/tune2fs'', ''-l'', device]))"
  shows "do_tune2fs_l env device = Inl (Reply_error ''tune2fs: truncated output'')"
proof -
  have "strchr (stdout (command env [''/sbin/tune2fs'', ''-l'', device])) CHR 0x0A = None"
    using nl by (simp add: strchr_None_iff)
  with ok pre show ?thesis
    by (simp add: do_tune2fs_l_def Let_def strncmp_eq_tune2fs)
qed

lemma take_banner:
  assumes "take 8 banner = ''tune2fs ''"
  shows "take 8 (banner @ rest) = ''tune2fs ''"
proof -
  have "length (take 8 banner) = 8" using assms by simp
  then have "8 \<le> length banner" by simp
  with assms show ?thesis by simp
qed

text \<open>
  Claim C5. When the output of \<^verbatim>\<open>tune2fs -l\<close> begins with \<^verbatim>\<open>"tune2fs "\<close>, its
  first line is a banner: without a newline to end it the operation fails with the
  truncated-output error and returns no pairs; with one, the banner is dropped and the
  result is what the line loop makes of the text after that newline.
\<close>

theorem tune2fs_l_banner:
  assumes "status (command env [''/sbin/tune2fs'', ''-l'', device]) \<noteq> - 1"
    and "take 8 (stdout (command env [''/sbin/tune2fs'', ''-l'', device])) = ''tune2fs ''"
  shows "(CHR 0x0A \<notin> set (stdout (command env [''/sbin/tune2fs'', ''-l'', device])) \<longrightarrow>
            do_tune2fs_l env device = Inl (Reply_error ''tune2fs: truncated output'')) \<and>
         (\<forall>banner rest.
            stdout (command env [''/sbin/tune2fs'', ''-l'', device]) = banner @ CHR 0x0A # rest \<and>
            CHR 0x0A \<notin> set banner \<longrightarrow>
            do_tune2fs_l env device = tune2fs_lines rest [])"
  using assms do_tune2fs_l_truncated [of env device] do_tune2fs_l_banner [of env device]
  by metis

theorem tune2fs_l_banner_witness:
  "do_tune2fs_l (tool_output_env ''tune2fs 1.41.4 (27-Jan-2009)'') ''/dev/sda1'' =
     Inl (Reply_error ''tune2fs: truncated output'') \<and>
   do_tune2fs_l (tool_output_env (''tune2fs 1.41.4'' @ [CHR 0x0A] @ ''Block size: 4096'' @ [CHR 0x0A]))
     ''/dev/sda1'' = Inr [''Block size'', ''4096'']"
proof -
  let ?e1 = "tool_output_env ''tune2fs 1.41.4 (27-Jan-2009)''"
  let ?e2 = "tool_output_env (''tune2fs 1.41.4'' @ [CHR 0x0A] @ ''Block size: 4096'' @ [CHR 0x0A])"
  have a: "do_tune2fs_l ?e1 ''/dev/sda1'' = Inl (Reply_error ''tune2fs: truncated output'')"
    using tune2fs_l_banner [of ?e1 "''/dev/sda1''"]
    by (simp add: tool_output_env_command)
  have "stdout (command ?e2 [''/sbin/tune2fs'', ''-l'', ''/dev/sda1'']) =
          ''tune2fs 1.41.4'' @ CHR 0x0A # (''Block size: 4096'' @ [CHR 0x0A]) \<and>
        CHR 0x0A \<notin> set ''tune2fs 1.41.4''"
    by (simp add: tool_output_env_command)
  moreover have "status (command ?e2 [''/sbin/tune2fs'', ''-l'', ''/dev/sda1'']) \<noteq> - 1"
    "take 8 (stdout (command ?e2 [''/sbin/tune2fs'', ''-l'', ''/dev/sda1''])) = ''tune2fs ''"
    by (simp_all add: tool_output_env_command)
  ultimately have "do_tune2fs_l ?e2 ''/dev/sda1'' = tune2fs_lines (''Block size: 4096'' @ [CHR 0x0A]) []"
    using tune2fs_l_banner [of ?e2 "''/dev/sda1''"] by blast
  also have "\<dots> = tune2fs_lines [] ([] @ spec_key_value ''Block size: 4096'')"
    by (rule tune2fs_lines_step) simp_all
  also have "\<dots> = Inr [''Block size'', ''4096'']"
    by (simp add: tune2fs_lines_Nil spec_key_value_def spec_none_value_def c_isspace_def)
  finally have b: "do_tune2fs_l ?e2 ''/dev/sda1'' = Inr [''Block size'', ''4096'']" .
  from a b show ?thesis by blast
qed


lemma tune2fs_l_lines:
  assumes ok: "status (command env [''/sbin/tune2fs'', ''-l'', device]) \<noteq> - 1"
    and out: "stdout (command env [''/sbin/tune2fs'', ''-l'', device]) =
                banner @ [CHR 0x0A] @ unlines ls @ rest"
    and banner: "take 8 banner = ''tune2fs ''" "CHR 0x0A \<notin> set banner"
    and ls: "\<forall>l\<in>set ls. l \<noteq> [] \<and> CHR 0x0A \<notin> set l"
  shows "do_tune2fs_l env device = tune2fs_lines rest (concat (map spec_key_value ls))"
proof -
  from out have o: "stdout (command env [''/sbin/tune2fs'', ''-l'', device]) =
      banner @ CHR 0x0A # (unlines ls @ rest)" by simp
  have "take 8 (banner @ CHR 0x0A # (unlines ls @ rest)) = ''tune2fs ''"
    using banner(1) by (rule take_banner)
  with ok o have "do_tune2fs_l env device = tune2fs_lines (unlines ls @ rest) []"
    using banner(2) by (rule do_tune2fs_l_banner)
  with ls show ?thesis by (simp add: tune2fs_lines_unlines)
qed

text \<open>
  Claim C1. For a well-formed output, that is a banner line followed by lines none of which
  is blank (the last one with or without its newline), \<^verbatim>\<open>do_tune2fs_l\<close> drops
  exactly the banner and returns the key and value of every following line, in order: each
  line split at its first colon with the white space trimmed from the front of the value,
  and a line without a colon as a key with an empty value.
\<close>

theorem tune2fs_l_well_formed:
  assumes "status (command env [''/sbin/tune2fs'', ''-l'', device]) \<noteq> - 1"
    and "stdout (command env [''/sbin/tune2fs'', ''-l'', device]) =
           banner @ [CHR 0x0A] @ unlines ls @ last_line"
    and "take 8 banner = ''tune2fs ''" and "CHR 0x0A \<notin> set banner"
    and "\<forall>l\<in>set ls. l \<noteq> [] \<and> CHR 0x0A \<notin> set l"
    and "CHR 0x0A \<notin> set last_line"
  shows "do_tune2fs_l env device =
           Inr (concat (map spec_key_value (ls @ (if last_line = [] then [] else [last_line]))))"
proof -
  have "do_tune2fs_l env device = tune2fs_lines last_line (concat (map spec_key_value ls))"
    using assms(1-5) by (rule tune2fs_l_lines)
  then show ?thesis
    using assms(6) by (cases "last_line = []") (simp_all add: tune2fs_lines_Nil tune2fs_lines_last)
qed

theorem tune2fs_l_well_formed_witness:
  "do_tune2fs_l
     (tool_output_env (''tune2fs 1.41.4'' @ [CHR 0x0A] @
        ''Filesystem volume name:   <none>'' @ [CHR 0x0A] @
        ''Block count: 25600'' @ [CHR 0x0A] @
        ''nocolon'' @ [CHR 0x0A] @
        ''Last: x:y''))
     ''/dev/sda1'' =
   Inr [''Filesystem volume name'', [], ''Block count'', ''25600'', ''nocolon'', [],
        ''Last'', ''x:y'']"
proof -
  let ?ls = "[''Filesystem volume name:   <none>'', ''Block count: 25600'', ''nocolon'']"
  let ?out = "''tune2fs 1.41.4'' @ [CHR 0x0A] @ unlines ?ls @ ''Last: x:y''"
  have "do_tune2fs_l (tool_output_env ?out) ''/dev/sda1'' =
      Inr (concat (map spec_key_value (?ls @ (if ''Last: x:y'' = [] then [] else [''Last: x:y'']))))"
    by (rule tune2fs_l_well_formed [where banner = "''tune2fs 1.41.4''"])
       (simp_all add: tool_output_env_command)
  then show ?thesis
    by (simp add: unlines_def spec_key_value_def spec_none_value_def c_isspace_def)
qed


lemma spec_key_value_colon:
  assumes key: "CHR '':'' \<notin> set key"
    and ws: "\<forall>c\<in>set ws. c_isspace c"
    and v: "v = [] \<or> \<not> c_isspace (hd v)"
  shows "spec_key_value (key @ CHR '':'' # ws @ v) = [key, if spec_none_value v then [] else v]"
proof -
  let ?line = "key @ CHR '':'' # ws @ v"
  have a: "dropWhile (\<lambda>c. c \<noteq> CHR '':'') ?line = CHR '':'' # ws @ v"
    using key by (rule dropWhile_neq_append)
  have b: "takeWhile (\<lambda>c. c \<noteq> CHR '':'') ?line = key"
    using key by (induction key) auto
  have "dropWhile c_isspace (ws @ v) = dropWhile c_isspace v"
    using ws by (simp add: dropWhile_append2)
  also have "\<dots> = v" using v by (cases v) auto
  finally have c: "dropWhile c_isspace (ws @ v) = v" .
  have d: "CHR '':'' \<in> set ?line" by simp
  show ?thesis
    unfolding spec_key_value_def Let_def a b using d c by simp
qed


text \<open>
  Claim C4. A line \<^verbatim>\<open>key:\<close>, white space, value of a well-formed output gives the pair
  of the key and the empty string when the value, with the leading white space trimmed, is
  \<^verbatim>\<open><none>\<close>, \<^verbatim>\<open><not available>\<close> or \<^verbatim>\<open>(none)\<close>, and the pair of the key and
  the value as it stands otherwise; the lines before and after give their pairs.
\<close>

theorem tune2fs_l_none_values:
  assumes ok: "status (command env [''/sbin/tune2fs'', ''-l'', device]) \<noteq> - 1"
    and out: "stdout (command env [''/sbin/tune2fs'', ''-l'', device]) =
           banner @ [CHR 0x0A] @ unlines before @ (key @ CHR '':'' # ws @ v) @ [CHR 0x0A] @
           unlines after"
    and banner: "take 8 banner = ''tune2fs ''" "CHR 0x0A \<notin> set banner"
    and before: "\<forall>l\<in>set before. l \<noteq> [] \<and> CHR 0x0A \<notin> set l"
    and after: "\<forall>l\<in>set after. l \<noteq> [] \<and> CHR 0x0A \<notin> set l"
    and key: "CHR '':'' \<notin> set key" "CHR 0x0A \<notin> set key"
    and ws: "\<forall>c\<in>set ws. c_isspace c \<and> c \<noteq> CHR 0x0A"
    and v: "CHR 0x0A \<notin> set v" "v = [] \<or> \<not> c_isspace (hd v)"
  shows "do_tune2fs_l env device =
           Inr (concat (map spec_key_value before) @
                [key, if v = ''<none>'' \<or> v = ''<not available>'' \<or> v = ''(none)'' then [] else v] @
                concat (map spec_key_value after))"
proof -
  let ?line = "key @ CHR '':'' # ws @ v"
  let ?ls = "before @ [?line] @ after"
  have u: "unlines ?ls = unlines before @ ?line @ [CHR 0x0A] @ unlines after"
    by (simp add: unlines_def)
  have o: "stdout (command env [''/sbin/tune2fs'', ''-l'', device]) =
           banner @ [CHR 0x0A] @ unlines ?ls @ []"
    unfolding u out by simp
  have wf: "\<forall>l\<in>set ?ls. l \<noteq> [] \<and> CHR 0x0A \<notin> set l"
    using before after key(2) ws v(1) by auto
  have "do_tune2fs_l env device = tune2fs_lines [] (concat (map spec_key_value ?ls))"
    using ok o banner wf by (rule tune2fs_l_lines)
  moreover have "spec_key_value ?line = [key, if spec_none_value v then [] else v]"
    using key(1) ws v(2) by (intro spec_key_value_colon) auto
  ultimately show ?thesis
    by (simp add: tune2fs_lines_Nil spec_none_value_def)
qed

theorem tune2fs_l_none_values_witness:
  "do_tune2fs_l
     (tool_output_env (''tune2fs 1.41.4'' @ [CHR 0x0A] @
        ''Filesystem volume name:   <none>'' @ [CHR 0x0A] @
        ''Last mounted on:          <not available>'' @ [CHR 0x0A] @
        ''Default mount options:    (none)'' @ [CHR 0x0A] @
        ''Filesystem state:         not clean'' @ [CHR 0x0A]))
     ''/dev/sda1'' =
   Inr [''Filesystem volume name'', [], ''Last mounted on'', [], ''Default mount options'', [],
        ''Filesystem state'', ''not clean'']"
proof -
  let ?before = "[''Filesystem volume name:   <none>'']"
  let ?after = "[''Default mount options:    (none)'', ''Filesystem state:         not clean'']"
  let ?out = "''tune2fs 1.41.4'' @ [CHR 0x0A] @ unlines ?before @
        (''Last mounted on'' @ CHR '':'' # ''          '' @ ''<not available>'') @ [CHR 0x0A] @
        unlines ?after"
  have ws: "\<forall>c\<in>set ''          ''. c_isspace c \<and> c \<noteq> CHR 0x0A"
    by (simp add: c_isspace_def)
  have v: "''<not available>'' = [] \<or> \<not> c_isspace (hd ''<not available>'')"
    by (simp add: c_isspace_def)
  have "do_tune2fs_l (tool_output_env ?out) ''/dev/sda1'' =
      Inr (concat (map spec_key_value ?before) @
           [''Last mounted on'',
            if ''<not available>'' = ''<none>'' \<or> ''<not available>'' = ''<not available>'' \<or>
               ''<not available>'' = ''(none)'' then [] else ''<not available>''] @
           concat (map spec_key_value ?after))"
    by (rule tune2fs_l_none_values [where banner = "''tune2fs 1.41.4''", OF _ _ _ _ _ _ _ _ ws _ v])
       (simp_all add: tool_output_env_command)
  then show ?thesis
    by (simp add: unlines_def spec_key_value_def spec_none_value_def c_isspace_def)
qed


text \<open>
  Claim C3. A blank line is not skipped: the \<^verbatim>\<open>continue\<close> leaves \<^verbatim>\<open>p\<close> on the NUL
  that has just replaced the newline, so the loop ends there and the lines after the blank
  line give no pairs. Here the line \<^verbatim>\<open>B: 2\<close> after the blank line is lost.
\<close>

theorem tune2fs_l_blank_line_ends_listing:
  "do_tune2fs_l
     (tool_output_env (''tune2fs 1.41.4'' @ [CHR 0x0A] @ ''A: 1'' @ [CHR 0x0A] @ [CHR 0x0A] @
                       ''B: 2'' @ [CHR 0x0A]))
     ''/dev/sda1'' = Inr [''A'', ''1'']"
proof -
  let ?out = "''tune2fs 1.41.4'' @ [CHR 0x0A] @ ''A: 1'' @ [CHR 0x0A] @ [CHR 0x0A] @ ''B: 2'' @ [CHR 0x0A]"
  have o: "stdout (command (tool_output_env ?out) [''/sbin/tune2fs'', ''-l'', ''/dev/sda1'']) =
      ''tune2fs 1.41.4'' @ [CHR 0x0A] @ unlines [''A: 1''] @ (CHR 0x0A # ''B: 2'' @ [CHR 0x0A])"
    by (simp add: tool_output_env_command unlines_def)
  have kv: "spec_key_value ''A: 1'' = [''A'', ''1'']"
    by (simp add: spec_key_value_def spec_none_value_def c_isspace_def)
  have "do_tune2fs_l (tool_output_env ?out) ''/dev/sda1'' =
      tune2fs_lines (CHR 0x0A # ''B: 2'' @ [CHR 0x0A]) (concat (map spec_key_value [''A: 1'']))"
    using tool_output_env_command(1) o by (rule tune2fs_l_lines) simp_all
  also have "\<dots> = Inr (concat (map spec_key_value [''A: 1'']))"
    by (rule tune2fs_lines_blank)
  finally show ?thesis by (simp add: kv)
qed

subsection \<open>ext2.c: the UUID\<close>

lemma length_uuid_marker: "length uuid_marker = 17"
  by (simp add: uuid_marker_def)

lemma strstr_absent:
  "\<forall>a b. hay \<noteq> a @ needle @ b \<Longrightarrow> strstr hay needle = None"
proof (induction hay)
  case Nil
  then have "needle \<noteq> []" by auto
  then show ?case by simp
next
  case (Cons h hs)
  have "take (length needle) (h # hs) \<noteq> needle"
  proof
    assume "take (length needle) (h # hs) = needle"
    then have "h # hs = [] @ needle @ drop (length needle) (h # hs)"
      by (metis append_Nil append_take_drop_id)
    with Cons.prems show False by blast
  qed
  moreover have "\<forall>a b. hs \<noteq> a @ needle @ b"
  proof (intro allI notI)
    fix a b assume "hs = a @ needle @ b"
    then have "h # hs = (h # a) @ needle @ b" by simp
    with Cons.prems show False by blast
  qed
  ultimately show ?case using Cons.IH by simp
qed

lemma uuid_marker_nth: "0 < n \<Longrightarrow> n < 17 \<Longrightarrow> uuid_marker ! n \<noteq> CHR 0x0A"
proof -
  assume n: "0 < n" "n < 17"
  then obtain m where m: "n = Suc m" by (cases n) auto
  with n have "m < length ''Filesystem UUID:''" by simp
  then have "''Filesystem UUID:'' ! m \<in> set ''Filesystem UUID:''" by (rule nth_mem)
  moreover have "CHR 0x0A \<notin> set ''Filesystem UUID:''" by simp
  ultimately have "''Filesystem UUID:'' ! m \<noteq> CHR 0x0A" by metis
  with m show ?thesis by (simp add: uuid_marker_def)
qed

lemma uuid_marker_not_early:
  assumes "pre \<noteq> []" and "\<forall>a b. pre \<noteq> a @ uuid_marker @ b"
  shows "take 17 (pre @ uuid_marker @ post) \<noteq> uuid_marker"
proof
  assume t: "take 17 (pre @ uuid_marker @ post) = uuid_marker"
  show False
  proof (cases "17 \<le> length pre")
    case True
    with t have "take 17 pre = uuid_marker" by simp
    then have "pre = [] @ uuid_marker @ drop 17 pre"
      by (metis append_Nil append_take_drop_id)
    with assms(2) show False by blast
  next
    case False
    then have n: "0 < length pre" "length pre < 17" using assms(1) by simp_all
    have "take 17 (pre @ uuid_marker @ post) ! length pre = (pre @ uuid_marker @ post) ! length pre"
      using n(2) by (rule nth_take)
    also have "\<dots> = hd uuid_marker" by (simp add: nth_append uuid_marker_def)
    also have "\<dots> = CHR 0x0A" by (simp add: uuid_marker_def)
    finally have "uuid_marker ! length pre = CHR 0x0A" using t by simp
    with uuid_marker_nth [OF n] show False by simp
  qed
qed

lemma strstr_uuid_marker_first:
  "\<forall>a b. pre \<noteq> a @ uuid_marker @ b \<Longrightarrow>
   strstr (pre @ uuid_marker @ post) uuid_marker = Some (uuid_marker @ post)"
proof (induction pre)
  case Nil
  show ?case by (simp add: uuid_marker_def)
next
  case (Cons h hs)
  have early: "take (length uuid_marker) ((h # hs) @ uuid_marker @ post) \<noteq> uuid_marker"
    unfolding length_uuid_marker using Cons.prems by (intro uuid_marker_not_early) simp_all
  have "\<forall>a b. hs \<noteq> a @ uuid_marker @ b"
  proof (intro allI notI)
    fix a b assume "hs = a @ uuid_marker @ b"
    then have "h # hs = (h # a) @ uuid_marker @ b" by simp
    with Cons.prems show False by blast
  qed
  then have "strstr (hs @ uuid_marker @ post) uuid_marker = Some (uuid_marker @ post)"
    by (rule Cons.IH)
  with early show ?case by simp
qed

lemma uuid_char_not_space: "uuid_char c \<Longrightarrow> \<not> c_isspace c"
  by (auto simp: uuid_char_def c_isxdigit_def c_isspace_def)

lemma drop_uuid_marker: "drop 17 (uuid_marker @ post) = post"
  using length_uuid_marker by simp

lemma skip_space:
  assumes ws: "\<forall>c\<in>set ws. c_isspace c"
    and u: "\<forall>c\<in>set u. uuid_char c"
    and rest: "rest = [] \<or> \<not> uuid_char (hd rest) \<and> (u = [] \<longrightarrow> \<not> c_isspace (hd rest))"
  shows "dropWhile c_isspace (ws @ u @ rest) = u @ rest"
proof -
  have "dropWhile c_isspace (ws @ u @ rest) = dropWhile c_isspace (u @ rest)"
    using ws by (simp add: dropWhile_append2)
  also have "\<dots> = u @ rest"
  proof (cases u)
    case Nil
    with rest show ?thesis by (cases rest) auto
  next
    case (Cons c cs)
    with u have "\<not> c_isspace c" by (simp add: uuid_char_not_space)
    with Cons show ?thesis by simp
  qed
  finally show ?thesis .
qed

lemma skip_uuid:
  assumes u: "\<forall>c\<in>set u. uuid_char c"
    and rest: "rest = [] \<or> \<not> uuid_char (hd rest)"
  shows "dropWhile uuid_char (u @ rest) = rest"
proof -
  have "dropWhile uuid_char (u @ rest) = dropWhile uuid_char rest"
    using u by (simp add: dropWhile_append2)
  also have "\<dots> = rest" using rest by (cases rest) auto
  finally show ?thesis .
qed

lemma get_e2uuid_present:
  assumes ok: "status (command env [''/sbin/tune2fs'', ''-l'', device]) \<noteq> - 1"
    and out: "stdout (command env [''/sbin/tune2fs'', ''-l'', device]) =
                pre @ uuid_marker @ ws @ u @ rest"
    and pre: "\<forall>a b. pre \<noteq> a @ uuid_marker @ b"
    and ws: "\<forall>c\<in>set ws. c_isspace c"
    and u: "\<forall>c\<in>set u. uuid_char c"
    and rest: "rest = [] \<or> \<not> uuid_char (hd rest) \<and> (u = [] \<longrightarrow> \<not> c_isspace (hd rest))"
  shows "do_get_e2uuid env device =
           (if rest = [] then Inl (Reply_error malformed_uuid_msg) else Inr u)"
proof -
  let ?r = "command env [''/sbin/tune2fs'', ''-l'', device]"
  have s: "strstr (stdout ?r) (CHR 0x0A # ''Filesystem UUID:'') = Some (uuid_marker @ ws @ u @ rest)"
    unfolding out using strstr_uuid_marker_first [OF pre] by (simp add: uuid_marker_def)
  have p: "dropWhile c_isspace (drop 17 (uuid_marker @ ws @ u @ rest)) = u @ rest"
    unfolding drop_uuid_marker using ws u rest by (rule skip_space)
  have q: "dropWhile uuid_char (u @ rest) = rest"
    using u rest by (intro skip_uuid) auto
  have e: "(status ?r = - 1) = False" using ok by simp
  have "do_get_e2uuid env device =
          (if u @ rest = [] then Inl (Reply_error malformed_uuid_msg)
           else if rest = [] then Inl (Reply_error malformed_uuid_msg)
           else Inr (take (length (u @ rest) - length rest) (u @ rest)))"
    unfolding do_get_e2uuid_def Let_def s e if_False option.case p q ..
  then show ?thesis by simp
qed

lemma get_e2uuid_absent:
  assumes ok: "status (command env [''/sbin/tune2fs'', ''-l'', device]) \<noteq> - 1"
    and absent: "\<forall>a b. stdout (command env [''/sbin/tune2fs'', ''-l'', device]) \<noteq> a @ uuid_marker @ b"
  shows "do_get_e2uuid env device = Inl (Reply_error no_uuid_msg)"
proof -
  have "strstr (stdout (command env [''/sbin/tune2fs'', ''-l'', device])) uuid_marker = None"
    using absent by (rule strstr_absent)
  then show ?thesis
    unfolding do_get_e2uuid_def Let_def using ok by (simp add: uuid_marker_def)
qed

text \<open>
  Claim C2, as the code has it. Without the marker \<^verbatim>\<open>"\nFilesystem UUID:"\<close> in the output
  \<^verbatim>\<open>do_get_e2uuid\<close> fails with its own message. Otherwise, after the first marker and
  the white space that follows it, it takes the longest run of hexadecimal digits and
  hyphens: when the output ends with that run (or with the white space) it fails with the
  malformed-UUID message, and when another byte follows it succeeds and returns the run,
  which is empty when that byte comes right after the white space.
\<close>

theorem get_e2uuid_result:
  assumes "status (command env [''/sbin/tune2fs'', ''-l'', device]) \<noteq> - 1"
  shows "((\<forall>a b. stdout (command env [''/sbin/tune2fs'', ''-l'', device]) \<noteq> a @ uuid_marker @ b) \<longrightarrow>
            do_get_e2uuid env device = Inl (Reply_error no_uuid_msg)) \<and>
         (\<forall>pre ws u rest.
            stdout (command env [''/sbin/tune2fs'', ''-l'', device]) = pre @ uuid_marker @ ws @ u @ rest \<and>
            (\<forall>a b. pre \<noteq> a @ uuid_marker @ b) \<and>
            (\<forall>c\<in>set ws. c_isspace c) \<and> (\<forall>c\<in>set u. uuid_char c) \<and>
            (rest = [] \<or> \<not> uuid_char (hd rest) \<and> (u = [] \<longrightarrow> \<not> c_isspace (hd rest))) \<longrightarrow>
            do_get_e2uuid env device =
              (if rest = [] then Inl (Reply_error malformed_uuid_msg) else Inr u)) \<and>
         no_uuid_msg \<noteq> malformed_uuid_msg"
proof (intro conjI allI impI)
  assume "\<forall>a b. stdout (command env [''/sbin/tune2fs'', ''-l'', device]) \<noteq> a @ uuid_marker @ b"
  with assms show "do_get_e2uuid env device = Inl (Reply_error no_uuid_msg)"
    by (rule get_e2uuid_absent)
next
  fix pre ws u rest
  assume h: "stdout (command env [''/sbin/tune2fs'', ''-l'', device]) = pre @ uuid_marker @ ws @ u @ rest \<and>
            (\<forall>a b. pre \<noteq> a @ uuid_marker @ b) \<and>
            (\<forall>c\<in>set ws. c_isspace c) \<and> (\<forall>c\<in>set u. uuid_char c) \<and>
            (rest = [] \<or> \<not> uuid_char (hd rest) \<and> (u = [] \<longrightarrow> \<not> c_isspace (hd rest)))"
  show "do_get_e2uuid env device = (if rest = [] then Inl (Reply_error malformed_uuid_msg) else Inr u)"
    using assms h by (intro get_e2uuid_present) blast+
next
  show "no_uuid_msg \<noteq> malformed_uuid_msg"
    by (simp add: no_uuid_msg_def malformed_uuid_msg_def)
qed

text \<open>
  Claim C2 as stated fails both ways: an empty run followed by another byte is returned
  as the empty UUID, not refused; and a run of seven digits and hyphens that ends the
  output is refused, not returned.
\<close>

theorem get_e2uuid_counterexample:
  "do_get_e2uuid (tool_output_env (CHR 0x0A # ''Filesystem UUID: (unknown)'' @ [CHR 0x0A])) ''/dev/sda1'' =
     Inr [] \<and>
   do_get_e2uuid (tool_output_env (CHR 0x0A # ''Filesystem UUID: 1b2c-3d'')) ''/dev/sda1'' =
     Inl (Reply_error malformed_uuid_msg)"
  by (simp add: do_get_e2uuid_def tool_output_env_command uuid_char_def c_isxdigit_def c_isspace_def)


lemma no_marker_without_newline:
  assumes "CHR 0x0A \<notin> set s"
  shows "\<forall>a b. s \<noteq> a @ uuid_marker @ b"
proof (intro allI notI)
  fix a b assume "s = a @ uuid_marker @ b"
  then have "CHR 0x0A \<in> set s" by (simp add: uuid_marker_def)
  with assms show False by simp
qed

theorem get_e2uuid_result_witness:
  "do_get_e2uuid
     (tool_output_env (''tune2fs 1.41.4'' @ uuid_marker @ ''          '' @ ''1b2c-3d'' @
                       CHR 0x0A # ''Filesystem magic number:  0xEF53''))
     ''/dev/sda1'' = Inr ''1b2c-3d'' \<and>
   do_get_e2uuid (tool_output_env ''tune2fs 1.41.4'') ''/dev/sda1'' = Inl (Reply_error no_uuid_msg)"
proof -
  let ?rest = "CHR 0x0A # ''Filesystem magic number:  0xEF53''"
  let ?e1 = "tool_output_env (''tune2fs 1.41.4'' @ uuid_marker @ ''          '' @ ''1b2c-3d'' @ ?rest)"
  let ?e2 = "tool_output_env ''tune2fs 1.41.4''"
  have pre: "\<forall>a b. ''tune2fs 1.41.4'' \<noteq> a @ uuid_marker @ b"
    by (rule no_marker_without_newline) simp
  have ws: "\<forall>c\<in>set ''          ''. c_isspace c" by (simp add: c_isspace_def)
  have u: "\<forall>c\<in>set ''1b2c-3d''. uuid_char c" by (simp add: uuid_char_def c_isxdigit_def)
  have rest: "?rest = [] \<or> \<not> uuid_char (hd ?rest) \<and> (''1b2c-3d'' = [] \<longrightarrow> \<not> c_isspace (hd ?rest))"
    by (simp add: uuid_char_def c_isxdigit_def)
  have out: "stdout (command ?e1 [''/sbin/tune2fs'', ''-l'', ''/dev/sda1'']) =
      ''tune2fs 1.41.4'' @ uuid_marker @ ''          '' @ ''1b2c-3d'' @ ?rest"
    by (rule tool_output_env_command)
  have "do_get_e2uuid ?e1 ''/dev/sda1'' =
      (if ?rest = [] then Inl (Reply_error malformed_uuid_msg) else Inr ''1b2c-3d'')"
    by (rule get_e2uuid_result [of ?e1 "''/dev/sda1''", OF tool_output_env_command(1),
          THEN conjunct2, THEN conjunct1, rule_format,
          where pre = "''tune2fs 1.41.4''" and ws = "''          ''"])
       (rule conjI out pre ws u rest)+
  then have a: "do_get_e2uuid ?e1 ''/dev/sda1'' = Inr ''1b2c-3d''" by simp
  have "\<forall>a b. stdout (command ?e2 [''/sbin/tune2fs'', ''-l'', ''/dev/sda1'']) \<noteq> a @ uuid_marker @ b"
    unfolding tool_output_env_command by (rule pre)
  then have b: "do_get_e2uuid ?e2 ''/dev/sda1'' = Inl (Reply_error no_uuid_msg)"
    by (rule get_e2uuid_result [of ?e2 "''/dev/sda1''", OF tool_output_env_command(1),
          THEN conjunct1, THEN mp])
  from a b show ?thesis by blast
qed

end
